theory Spec2Isabelle
  imports Main "HOL-Library.Word" "HOL-Library.Multiset"
begin

section \<open>The provider pool (package llmpool)\<close>

subsection \<open>Data model\<close>

text \<open>
  Go's \<open>int\<close> on a 64-bit platform: a 64-bit word read in two's complement. Addition wraps
  around and comparisons are signed.
\<close>

type_synonym int64 = "64 word"

text \<open>
  A \<open>time.Time\<close> instant, as a count of nanoseconds on one time line. \<open>t.Before(u)\<close> is
  \<open>t < u\<close>. \<open>now.Sub(t)\<close> is the difference \<open>now - t\<close>, which the library saturates at the
  ends of the \<open>int64\<close> range; the only use is the comparison with \<open>time.Minute\<close>, whose
  outcome saturation does not change.
\<close>

type_synonym time = int

definition Minute :: int where
  "Minute = 60000000000"

definition ProviderGroq :: string where
  "ProviderGroq = ''groq''"

definition ProviderOpenAI :: string where
  "ProviderOpenAI = ''openai''"

definition ProviderAnthropic :: string where
  "ProviderAnthropic = ''anthropic''"

text \<open>The struct \<open>Provider\<close>, without its mutex.\<close>

record Provider =
  Name :: string
  Type :: string
  APIKey :: string
  BaseURL :: string
  Model :: string
  Priority :: int64
  RequestsPerMinute :: int64
  RequestCount :: int64
  LastReset :: time
  TotalRequests :: int64
  Errors :: int64
  LastUsed :: time

text \<open>
  The pool holds pointers (\<open>[]*Provider\<close>): a pointer is an address, and the providers live
  in a store from addresses to structs, so that one provider registered twice is one
  struct seen through two slice entries. The state of the program is the store, the
  pool's slice of pointers in iteration order, and the number of readings of
  \<open>time.Now()\<close> taken so far. The readings themselves are given from outside as a
  function \<open>clk\<close> from the index of the reading to the instant read.
\<close>

type_synonym addr = nat

record World =
  mem :: "addr \<Rightarrow> Provider"
  providers :: "addr list"
  reads :: nat

definition NewPool :: "(addr \<Rightarrow> Provider) \<Rightarrow> World" where
  "NewPool m = \<lparr>mem = m, providers = [], reads = 0\<rparr>"

subsection \<open>Rate limiter\<close>

definition CanUseProvider :: "(nat \<Rightarrow> time) \<Rightarrow> addr \<Rightarrow> World \<Rightarrow> World \<times> bool" where
  "CanUseProvider clk a w =
     (let now = clk (reads w);
          p = mem w a;
          p' = (if Minute \<le> now - LastReset p
                then p\<lparr>RequestCount := 0, LastReset := now\<rparr>
                else p)
      in (w\<lparr>mem := (mem w)(a := p'), reads := Suc (reads w)\<rparr>,
          RequestCount p' <s RequestsPerMinute p'))"

subsection \<open>Errors\<close>

text \<open>
  The errors the package makes with \<open>fmt.Errorf\<close>, one constructor for each format
  string, and the errors handed up from the libraries it calls (JSON, HTTP), which
  are kept as their message.
\<close>

datatype error =
    NoProvidersAvailable
  | UnsupportedProviderType string
  | ProviderReturnedStatus string int string
  | LibraryError string
  | AllProvidersFailed "error option"

subsection \<open>Selector\<close>

text \<open>The first loop of \<open>SelectProvider\<close>: the first provider the rate limiter lets through.\<close>

fun firstAvailable :: "(nat \<Rightarrow> time) \<Rightarrow> addr list \<Rightarrow> World \<Rightarrow> World \<times> addr option" where
  "firstAvailable clk [] w = (w, None)"
| "firstAvailable clk (a # as) w =
     (case CanUseProvider clk a w of
        (w', True) \<Rightarrow> (w', Some a)
      | (w', False) \<Rightarrow> firstAvailable clk as w')"

text \<open>The second loop: the running \<open>leastRecent\<close> is replaced only by a strictly earlier one.\<close>

fun leastRecent :: "(addr \<Rightarrow> Provider) \<Rightarrow> addr \<Rightarrow> addr list \<Rightarrow> addr" where
  "leastRecent m best [] = best"
| "leastRecent m best (a # as) =
     leastRecent m (if LastUsed (m a) < LastUsed (m best) then a else best) as"

definition SelectProvider :: "(nat \<Rightarrow> time) \<Rightarrow> World \<Rightarrow> World \<times> (error + addr)" where
  "SelectProvider clk w =
     (case firstAvailable clk (providers w) w of
        (w', Some a) \<Rightarrow> (w', Inr a)
      | (w', None) \<Rightarrow>
          (case providers w' of
             [] \<Rightarrow> (w', Inl NoProvidersAvailable)
           | a # as \<Rightarrow> (w', Inr (leastRecent (mem w') a as))))"

definition UpdateProviderStats :: "(nat \<Rightarrow> time) \<Rightarrow> addr \<Rightarrow> bool \<Rightarrow> World \<Rightarrow> World" where
  "UpdateProviderStats clk a success w =
     (let p = mem w a;
          p1 = p\<lparr>RequestCount := RequestCount p + 1,
                 TotalRequests := TotalRequests p + 1,
                 LastUsed := clk (reads w)\<rparr>;
          p2 = (if \<not> success then p1\<lparr>Errors := Errors p1 + 1\<rparr> else p1)
      in w\<lparr>mem := (mem w)(a := p2), reads := Suc (reads w)\<rparr>)"

subsection \<open>Canonical and wire formats\<close>

text \<open>
  A message's content is declared \<open>any\<close> and documented as \<open>string or []MessagePart\<close>:
  the two dynamic types are the two constructors. The pointer \<open>ImageURL\<close> is an option.
\<close>

record MessagePart =
  part_Type :: string
  part_Text :: string
  part_ImageURL :: "string option"

datatype content = Text string | Parts "MessagePart list"

record ChatMessage =
  Role :: string
  Content :: content

text \<open>
  \<open>Temperature\<close> is a \<open>float64\<close> that the package only passes on: its type is left open.
\<close>

record 'f ChatRequest =
  Messages :: "ChatMessage list"
  req_Model :: string
  Temperature :: 'f
  MaxTokens :: int64
  Stream :: bool

record Usage =
  PromptTokens :: int64
  CompletionTokens :: int64
  TotalTokens :: int64

record ChatResponse =
  ID :: string
  resp_Content :: string
  resp_Model :: string
  resp_Usage :: Usage
  resp_Provider :: string

text \<open>
  The value handed to \<open>json.Marshal\<close>: a map with the keys of the chat-completions body,
  or a map with the keys of the Anthropic body, where the key \<open>system\<close> may be missing
  and each message is a map with the two keys \<open>role\<close> and \<open>content\<close>. The slice
  \<open>messages\<close> of the Anthropic body is \<open>nil\<close> until the first append: the empty list
  stands for \<open>nil\<close>.
\<close>

datatype 'f wire_request =
    OpenAIRequest string "ChatMessage list" 'f int64 bool
  | AnthropicRequest string int64 'f "(string \<times> string) list" "string option"

text \<open>The anonymous structs that \<open>ParseProviderResponse\<close> decodes a body into.\<close>

record OpenAIResponse =
  oa_id :: string
  oa_model :: string
  oa_choices :: "string list"
  oa_usage :: Usage

record AnthropicResponse =
  an_id :: string
  an_model :: string
  an_content :: "string list"
  an_input_tokens :: int64
  an_output_tokens :: int64

record HTTPRequest =
  Method :: string
  URL :: string
  Header :: "(string \<times> string) list"
  Body :: string

text \<open>
  What one trip through \<open>http.NewRequestWithContext\<close>, \<open>client.Do\<close> and \<open>io.ReadAll\<close>
  comes to: an error of one of the three calls, or a status code with the body read.
\<close>

datatype exchange =
    NewRequestError string
  | DoError string
  | ReadAllError string
  | Response int string

text \<open>
  The library calls, given from outside: \<open>json.Marshal\<close>, \<open>json.Unmarshal\<close> into each of
  the two response structs, and the HTTP exchange of the attempt with a given number.
\<close>

record 'f Library =
  Marshal :: "'f wire_request \<Rightarrow> error + string"
  Unmarshal_openai :: "string \<Rightarrow> error + OpenAIResponse"
  Unmarshal_anthropic :: "string \<Rightarrow> error + AnthropicResponse"
  Exchange :: "nat \<Rightarrow> HTTPRequest \<Rightarrow> exchange"

text \<open>A call returns or panics.\<close>

datatype 'a outcome = Return 'a | Panic

subsection \<open>Format translator\<close>

text \<open>
  The loop of the Anthropic case over \<open>req.Messages\<close>, with the variables \<open>systemMsg\<close>
  and \<open>messages\<close>. The type assertion \<open>msg.Content.(string)\<close> has no \<open>ok\<close> result: on
  content that is not a string it panics.
\<close>

fun splitSystem ::
  "ChatMessage list \<Rightarrow> string \<Rightarrow> (string \<times> string) list
     \<Rightarrow> (string \<times> (string \<times> string) list) outcome" where
  "splitSystem [] systemMsg messages = Return (systemMsg, messages)"
| "splitSystem (msg # rest) systemMsg messages =
     (if Role msg = ''system''
      then (case Content msg of
              Text s \<Rightarrow> splitSystem rest s messages
            | Parts _ \<Rightarrow> Panic)
      else (case Content msg of
              Text s \<Rightarrow> splitSystem rest systemMsg (messages @ [(Role msg, s)])
            | Parts _ \<Rightarrow> Panic))"

definition ConvertToProviderFormat ::
  "('f wire_request \<Rightarrow> error + string) \<Rightarrow> Provider \<Rightarrow> 'f ChatRequest
     \<Rightarrow> (error + string) outcome" where
  "ConvertToProviderFormat marshal provider req =
     (if Type provider = ProviderGroq \<or> Type provider = ProviderOpenAI
      then Return (marshal (OpenAIRequest (Model provider) (Messages req) (Temperature req)
                              (MaxTokens req) (Stream req)))
      else if Type provider = ProviderAnthropic
      then (case splitSystem (Messages req) [] [] of
              Panic \<Rightarrow> Panic
            | Return (systemMsg, messages) \<Rightarrow>
                Return (marshal (AnthropicRequest (Model provider) (MaxTokens req)
                                   (Temperature req) messages
                                   (if systemMsg \<noteq> [] then Some systemMsg else None))))
      else Return (Inl (UnsupportedProviderType (Type provider))))"

definition ParseProviderResponse ::
  "'f Library \<Rightarrow> Provider \<Rightarrow> string \<Rightarrow> error + ChatResponse" where
  "ParseProviderResponse lib provider body =
     (if Type provider = ProviderGroq \<or> Type provider = ProviderOpenAI
      then (case Unmarshal_openai lib body of
              Inl err \<Rightarrow> Inl err
            | Inr r \<Rightarrow>
                Inr \<lparr>ID = oa_id r,
                     resp_Content = (case oa_choices r of [] \<Rightarrow> [] | c # _ \<Rightarrow> c),
                     resp_Model = oa_model r,
                     resp_Usage = oa_usage r,
                     resp_Provider = Name provider\<rparr>)
      else if Type provider = ProviderAnthropic
      then (case Unmarshal_anthropic lib body of
              Inl err \<Rightarrow> Inl err
            | Inr r \<Rightarrow>
                Inr \<lparr>ID = an_id r,
                     resp_Content = (case an_content r of [] \<Rightarrow> [] | c # _ \<Rightarrow> c),
                     resp_Model = an_model r,
                     resp_Usage = \<lparr>PromptTokens = an_input_tokens r,
                                   CompletionTokens = an_output_tokens r,
                                   TotalTokens = an_input_tokens r + an_output_tokens r\<rparr>,
                     resp_Provider = Name provider\<rparr>)
      else Inl (UnsupportedProviderType (Type provider)))"

subsection \<open>Dispatcher\<close>

definition endpoint :: "Provider \<Rightarrow> string" where
  "endpoint provider =
     (if Type provider = ProviderGroq then BaseURL provider @ ''/chat/completions''
      else if Type provider = ProviderOpenAI then BaseURL provider @ ''/chat/completions''
      else if Type provider = ProviderAnthropic then BaseURL provider @ ''/messages''
      else [])"

definition headers :: "Provider \<Rightarrow> (string \<times> string) list" where
  "headers provider =
     (''Content-Type'', ''application/json'') #
     (if Type provider = ProviderGroq \<or> Type provider = ProviderOpenAI
      then [(''Authorization'', ''Bearer '' @ APIKey provider)]
      else if Type provider = ProviderAnthropic
      then [(''x-api-key'', APIKey provider), (''anthropic-version'', ''2023-06-01'')]
      else [])"

text \<open>
  One pass through the body of the loop of \<open>Chat\<close>: it returns from \<open>Chat\<close>, or goes on
  to the next pass with a new \<open>lastErr\<close>, or panics.
\<close>

datatype attempt = Returned "error + ChatResponse" | Continued error | Panicked

definition Chat_attempt ::
  "(nat \<Rightarrow> time) \<Rightarrow> 'f Library \<Rightarrow> 'f ChatRequest \<Rightarrow> nat \<Rightarrow> World \<Rightarrow> World \<times> attempt" where
  "Chat_attempt clk lib req retry w =
     (case SelectProvider clk w of
        (w1, Inl err) \<Rightarrow> (w1, Returned (Inl err))
      | (w1, Inr a) \<Rightarrow>
          (let provider = mem w1 a in
           case ConvertToProviderFormat (Marshal lib) provider req of
             Panic \<Rightarrow> (w1, Panicked)
           | Return (Inl err) \<Rightarrow> (w1, Continued err)
           | Return (Inr reqBody) \<Rightarrow>
               (case Exchange lib retry
                       \<lparr>Method = ''POST'', URL = endpoint provider,
                        Header = headers provider, Body = reqBody\<rparr> of
                  NewRequestError e \<Rightarrow> (w1, Continued (LibraryError e))
                | DoError e \<Rightarrow>
                    (UpdateProviderStats clk a False w1, Continued (LibraryError e))
                | ReadAllError e \<Rightarrow>
                    (UpdateProviderStats clk a False w1, Continued (LibraryError e))
                | Response status body \<Rightarrow>
                    if status \<noteq> 200
                    then (UpdateProviderStats clk a False w1,
                          Continued (ProviderReturnedStatus (Name provider) status body))
                    else (case ParseProviderResponse lib provider body of
                            Inl err \<Rightarrow> (UpdateProviderStats clk a False w1, Continued err)
                          | Inr chatResp \<Rightarrow>
                              (UpdateProviderStats clk a True w1, Returned (Inr chatResp))))))"

function Chat_loop ::
  "(nat \<Rightarrow> time) \<Rightarrow> 'f Library \<Rightarrow> 'f ChatRequest \<Rightarrow> nat \<Rightarrow> nat \<Rightarrow> error option \<Rightarrow> World
     \<Rightarrow> World \<times> (error + ChatResponse) outcome" where
  "Chat_loop clk lib req maxRetries retry lastErr w =
     (if retry < maxRetries
      then (case Chat_attempt clk lib req retry w of
              (w', Returned r) \<Rightarrow> (w', Return r)
            | (w', Panicked) \<Rightarrow> (w', Panic)
            | (w', Continued err) \<Rightarrow> Chat_loop clk lib req maxRetries (Suc retry) (Some err) w')
      else (w, Return (Inl (AllProvidersFailed lastErr))))"
  by pat_completeness auto
termination
  by (relation "measure (\<lambda>(clk, lib, req, maxRetries, retry, lastErr, w). maxRetries - retry)") auto

declare Chat_loop.simps [simp del]

definition Chat ::
  "(nat \<Rightarrow> time) \<Rightarrow> 'f Library \<Rightarrow> 'f ChatRequest \<Rightarrow> World
     \<Rightarrow> World \<times> (error + ChatResponse) outcome" where
  "Chat clk lib req w = Chat_loop clk lib req (length (providers w)) 0 None w"

subsection \<open>Registry\<close>

text \<open>
  \<open>sort.Slice\<close> belongs to Go's library. On a slice of at most 12 elements it runs
  (since Go 1.19) its insertion sort,
  \<^verbatim>\<open>for i := a + 1; i < b; i++ { for j := i; j > a && less(j, j-1); j-- { swap(j, j-1) } }\<close>,
  which is modelled here: \<open>sink\<close> is the inner loop moving the element \<open>x\<close> to the left
  through the elements before it, which are held nearest first. On a longer slice the
  library runs its pattern-defeating quicksort, which is not modelled and is taken as
  the parameter \<open>pdq\<close>.
\<close>

fun sink :: "('a \<Rightarrow> 'a \<Rightarrow> bool) \<Rightarrow> 'a \<Rightarrow> 'a list \<Rightarrow> 'a list" where
  "sink lessf x [] = [x]"
| "sink lessf x (y # ys) = (if lessf x y then y # sink lessf x ys else x # y # ys)"

definition insertionSort :: "('a \<Rightarrow> 'a \<Rightarrow> bool) \<Rightarrow> 'a list \<Rightarrow> 'a list" where
  "insertionSort lessf xs = rev (foldl (\<lambda>before x. sink lessf x before) [] xs)"

definition sort_Slice ::
  "(('a \<Rightarrow> 'a \<Rightarrow> bool) \<Rightarrow> 'a list \<Rightarrow> 'a list) \<Rightarrow> ('a \<Rightarrow> 'a \<Rightarrow> bool) \<Rightarrow> 'a list \<Rightarrow> 'a list" where
  "sort_Slice pdq lessf xs = (if length xs \<le> 12 then insertionSort lessf xs else pdq lessf xs)"

text \<open>The comparison function that \<open>AddProvider\<close> gives to \<open>sort.Slice\<close>.\<close>

definition priorityLess :: "(addr \<Rightarrow> Provider) \<Rightarrow> addr \<Rightarrow> addr \<Rightarrow> bool" where
  "priorityLess m i j =
     (if Priority (m i) = Priority (m j) then Type (m i) = ProviderGroq
      else Priority (m i) <s Priority (m j))"

definition AddProvider ::
  "((addr \<Rightarrow> addr \<Rightarrow> bool) \<Rightarrow> addr list \<Rightarrow> addr list) \<Rightarrow> (nat \<Rightarrow> time) \<Rightarrow> addr \<Rightarrow> World \<Rightarrow> World" where
  "AddProvider pdq clk a w =
     (let m = (mem w)(a := (mem w a)\<lparr>LastReset := clk (reads w)\<rparr>)
      in w\<lparr>mem := m,
           providers := sort_Slice pdq (priorityLess m) (providers w @ [a]),
           reads := Suc (reads w)\<rparr>)"

definition GetProviders :: "World \<Rightarrow> World \<times> Provider list" where
  "GetProviders w = (w, map (\<lambda>a. (mem w a)\<lparr>APIKey := ''***''\<rparr>) (providers w))"

subsection \<open>Vocabulary of the statements\<close>

text \<open>
  The state after the rate limiter has been asked, in order, about each provider of a
  list; and the answer it gives for the \<open>i\<close>-th provider of the list when it has been
  asked about the \<open>i\<close> providers before it.
\<close>

definition asked :: "(nat \<Rightarrow> time) \<Rightarrow> addr list \<Rightarrow> World \<Rightarrow> World" where
  "asked clk as w = fold (\<lambda>a v. fst (CanUseProvider clk a v)) as w"

definition permits :: "(nat \<Rightarrow> time) \<Rightarrow> addr list \<Rightarrow> World \<Rightarrow> nat \<Rightarrow> bool" where
  "permits clk as w i = snd (CanUseProvider clk (as ! i) (asked clk (take i as) w))"

text \<open>
  For the Anthropic translation: whether a content is plain text, and its text; the content
  of the last system-role message of a list (empty when there is none); and the messages
  that are not system-role, in order, as pairs of role and text.
\<close>

definition isText :: "content \<Rightarrow> bool" where
  "isText c = (case c of Text _ \<Rightarrow> True | Parts _ \<Rightarrow> False)"

definition textOf :: "content \<Rightarrow> string" where
  "textOf c = (case c of Text s \<Rightarrow> s | Parts _ \<Rightarrow> [])"

definition lastSystem :: "ChatMessage list \<Rightarrow> string" where
  "lastSystem msgs =
     (case filter (\<lambda>m. Role m = ''system'') msgs of
        [] \<Rightarrow> []
      | s # ss \<Rightarrow> textOf (Content (last (s # ss))))"

definition rolePairs :: "ChatMessage list \<Rightarrow> (string \<times> string) list" where
  "rolePairs msgs = map (\<lambda>m. (Role m, textOf (Content m))) (filter (\<lambda>m. Role m \<noteq> ''system'') msgs)"


definition dispatched :: "'f Library \<Rightarrow> Provider \<Rightarrow> 'f ChatRequest \<Rightarrow> nat \<Rightarrow> bool" where
  "dispatched lib provider req retry =
     (case ConvertToProviderFormat (Marshal lib) provider req of
        Return (Inr reqBody) \<Rightarrow>
          (case Exchange lib retry
                  \<lparr>Method = ''POST'', URL = endpoint provider,
                   Header = headers provider, Body = reqBody\<rparr> of
             NewRequestError e \<Rightarrow> False
           | DoError e \<Rightarrow> True
           | ReadAllError e \<Rightarrow> True
           | Response status body \<Rightarrow> True)
      | Return (Inl err) \<Rightarrow> False
      | Panic \<Rightarrow> False)"

definition succeeded :: "attempt \<Rightarrow> bool" where
  "succeeded res = (case res of Returned (Inr chatResp) \<Rightarrow> True | _ \<Rightarrow> False)"

definition lifetime :: "Provider \<Rightarrow> int64 \<times> int64 \<times> time" where
  "lifetime p = (TotalRequests p, Errors p, LastUsed p)"

text \<open>
  For the registry's order: \<open>precedes m a b\<close> says that \<open>a\<close> may stand before \<open>b\<close>, that
  is, \<open>a\<close> has the lower priority number, or the same and then \<open>b\<close> is of type Groq only
  if \<open>a\<close> is. \<open>orderKey\<close> is the priority number with the type as a last binary digit,
  so that \<open>precedes m a b\<close> is \<open>orderKey m a \<le> orderKey m b\<close>.

  What is assumed of the library's sort on slices of more than 12 elements, where it is not
  modelled: it permutes the slice, and the result is in the order of every ranking that
  the comparison function agrees with, also when the comparison function is not a strict
  order on elements of equal rank.
\<close>

definition precedes :: "(addr \<Rightarrow> Provider) \<Rightarrow> addr \<Rightarrow> addr \<Rightarrow> bool" where
  "precedes m a b \<longleftrightarrow>
     sint (Priority (m a)) < sint (Priority (m b))
     \<or> (Priority (m a) = Priority (m b)
          \<and> (Type (m b) = ProviderGroq \<longrightarrow> Type (m a) = ProviderGroq))"

definition orderKey :: "(addr \<Rightarrow> Provider) \<Rightarrow> addr \<Rightarrow> int" where
  "orderKey m a = 2 * sint (Priority (m a)) + (if Type (m a) = ProviderGroq then 0 else 1)"

definition agrees :: "('a \<Rightarrow> 'a \<Rightarrow> bool) \<Rightarrow> ('a \<Rightarrow> int) \<Rightarrow> bool" where
  "agrees lessf key \<longleftrightarrow>
     (\<forall>x y. (lessf x y \<longrightarrow> key x \<le> key y) \<and> (\<not> lessf x y \<longrightarrow> key y \<le> key x))"

definition sortsByKey :: "(('a \<Rightarrow> 'a \<Rightarrow> bool) \<Rightarrow> 'a list \<Rightarrow> 'a list) \<Rightarrow> bool" where
  "sortsByKey srt \<longleftrightarrow>
     (\<forall>lessf key xs. agrees lessf key \<longrightarrow>
        mset (srt lessf xs) = mset xs \<and> sorted (map key (srt lessf xs)))"

definition AddProviders ::
  "((addr \<Rightarrow> addr \<Rightarrow> bool) \<Rightarrow> addr list \<Rightarrow> addr list) \<Rightarrow> (nat \<Rightarrow> time) \<Rightarrow> addr list \<Rightarrow> World \<Rightarrow> World" where
  "AddProviders pdq clk as w = fold (AddProvider pdq clk) as w"

section \<open>Example states\<close>

text \<open>
  Concrete providers, clocks and pools on which the theorems below are exercised. The
  example clocks read 1000 ns and later, or one minute and later; every example window
  starts at 0.
\<close>

definition ex_provider :: "string \<Rightarrow> string \<Rightarrow> int64 \<Rightarrow> int64 \<Rightarrow> int64 \<Rightarrow> time \<Rightarrow> Provider" where
  "ex_provider n t prio rpm cnt used =
     \<lparr>Name = n, Type = t, APIKey = ''secret'', BaseURL = ''https://api.example/v1'', Model = ''m'',
      Priority = prio, RequestsPerMinute = rpm, RequestCount = cnt, LastReset = 0,
      TotalRequests = cnt, Errors = 0, LastUsed = used\<rparr>"

definition ex_clk :: "nat \<Rightarrow> time" where
  "ex_clk n = 1000 + int n"

definition ex_late :: "nat \<Rightarrow> time" where
  "ex_late n = Minute + int n"

definition ex_mem :: "addr \<Rightarrow> Provider" where
  "ex_mem = (\<lambda>_. ex_provider ''spare'' ''openai'' 9 1 0 0)
     (0 := ex_provider ''a'' ''groq'' 1 2 2 700,
      1 := ex_provider ''b'' ''openai'' 2 2 1 500,
      2 := ex_provider ''c'' ''anthropic'' 3 2 2 600,
      3 := ex_provider ''d'' ''openai'' 4 0 0 0,
      4 := ex_provider ''e'' ''openai'' 5 0 0 0,
      5 := ex_provider ''f'' ''mistral'' 0 10 0 0,
      6 := ex_provider ''g'' ''openai'' 1 10 0 0,
      7 := ex_provider ''h'' ''openai'' 1 10 0 0,
      8 := ex_provider ''i'' ''groq'' 1 10 0 0)"

definition ex_world :: "addr list \<Rightarrow> World" where
  "ex_world ps = \<lparr>mem = ex_mem, providers = ps, reads = 0\<rparr>"

lemmas ex_defs = ex_world_def ex_mem_def ex_clk_def ex_late_def ex_provider_def permits_def
  asked_def CanUseProvider_def Let_def Minute_def word_sless_alt

text \<open>
  An example \<open>json.Marshal\<close> that shows the family, the model, the \<open>system\<close> key and the
  messages of the value it is given; example messages and requests; and example decoders
  that put the body they are given into the first choice or content block, one of them with
  a usage whose total is not the sum of its two counts.
\<close>

definition ex_marshal :: "unit wire_request \<Rightarrow> error + string" where
  "ex_marshal wr =
     (case wr of
        OpenAIRequest model msgs temp maxTokens stream \<Rightarrow> Inr (''openai model='' @ model)
      | AnthropicRequest model maxTokens temp msgs sys \<Rightarrow>
          Inr (''anthropic model='' @ model @ '' system=''
                 @ (case sys of None \<Rightarrow> ''(none)'' | Some s \<Rightarrow> s)
                 @ concat (map (\<lambda>(r, c). '' '' @ r @ ''='' @ c) msgs)))"

definition ex_msg :: "string \<Rightarrow> string \<Rightarrow> ChatMessage" where
  "ex_msg r s = \<lparr>Role = r, Content = Text s\<rparr>"

definition ex_req :: "ChatMessage list \<Rightarrow> unit ChatRequest" where
  "ex_req msgs = \<lparr>Messages = msgs, req_Model = [], Temperature = (), MaxTokens = 100, Stream = False\<rparr>"

definition ex_usage :: Usage where
  "ex_usage = \<lparr>PromptTokens = 3, CompletionTokens = 4, TotalTokens = 7\<rparr>"

definition ex_lib :: "unit Library" where
  "ex_lib =
     \<lparr>Marshal = ex_marshal,
      Unmarshal_openai = (\<lambda>body.
        if body = ''bad'' then Inl (LibraryError ''invalid character'')
        else Inr \<lparr>oa_id = ''id-1'', oa_model = ''m'', oa_choices = [body, ''second''],
                  oa_usage = ex_usage\<rparr>),
      Unmarshal_anthropic = (\<lambda>body.
        if body = ''bad'' then Inl (LibraryError ''invalid character'')
        else Inr \<lparr>an_id = ''id-2'', an_model = ''m'', an_content = [body, ''second''],
                  an_input_tokens = 3, an_output_tokens = 4\<rparr>),
      Exchange = (\<lambda>retry r. Response 500 ''overloaded'')\<rparr>"

definition ex_lib_skew :: "unit Library" where
  "ex_lib_skew = ex_lib\<lparr>Unmarshal_openai := (\<lambda>body.
     Inr \<lparr>oa_id = ''id-3'', oa_model = ''m'', oa_choices = [body],
          oa_usage = \<lparr>PromptTokens = 3, CompletionTokens = 4, TotalTokens = 99\<rparr>\<rparr>)\<rparr>"

definition ex_lib_ok :: "unit Library" where
  "ex_lib_ok = ex_lib\<lparr>Exchange := (\<lambda>retry r. Response 200 ''hello'')\<rparr>"

section \<open>Lemmas\<close>

subsection \<open>The two loops of the selector\<close>

lemma asked_Nil [simp]: "asked clk [] w = w" by (simp add: asked_def)
lemma asked_Cons [simp]: "asked clk (a # as) w = asked clk as (fst (CanUseProvider clk a w))"
  by (simp add: asked_def)
lemma asked_snoc: "asked clk (as @ [a]) w = fst (CanUseProvider clk a (asked clk as w))"
  by (simp add: asked_def)

lemma permits_0 [simp]: "permits clk (a # as) w 0 = snd (CanUseProvider clk a w)"
  by (simp add: permits_def)
lemma permits_Suc [simp]:
  "permits clk (a # as) w (Suc i) = permits clk as (fst (CanUseProvider clk a w)) i"
  by (simp add: permits_def)

lemma CanUseProvider_providers [simp]: "providers (fst (CanUseProvider clk a w)) = providers w"
  by (simp add: CanUseProvider_def Let_def)

lemma asked_providers [simp]: "providers (asked clk as w) = providers w"
  by (induction as arbitrary: w) auto

lemma firstAvailable_Some:
  "firstAvailable clk as w = (w', Some a) \<Longrightarrow>
     \<exists>i<length as. a = as ! i \<and> permits clk as w i \<and> (\<forall>j<i. \<not> permits clk as w j)
        \<and> w' = asked clk (take (Suc i) as) w"
proof (induction as arbitrary: w)
  case Nil
  then show ?case by simp
next
  case (Cons b bs)
  obtain v ok where c: "CanUseProvider clk b w = (v, ok)" by (cases "CanUseProvider clk b w")
  show ?case
  proof (cases ok)
    case True
    with Cons.prems c have "a = b" "w' = v" by auto
    with c True show ?thesis by (intro exI[of _ 0]) simp
  next
    case False
    with Cons.prems c have "firstAvailable clk bs v = (w', Some a)" by simp
    from Cons.IH[OF this] obtain i where i: "i < length bs" "a = bs ! i" "permits clk bs v i"
      "\<forall>j<i. \<not> permits clk bs v j" "w' = asked clk (take (Suc i) bs) v" by blast
    have "\<forall>j<Suc i. \<not> permits clk (b # bs) w j"
    proof (intro allI impI)
      fix j assume "j < Suc i"
      then show "\<not> permits clk (b # bs) w j" using i(4) c False by (cases j) auto
    qed
    with i c show ?thesis by (intro exI[of _ "Suc i"]) simp
  qed
qed

lemma firstAvailable_None:
  "firstAvailable clk as w = (w', None) \<Longrightarrow>
     (\<forall>j<length as. \<not> permits clk as w j) \<and> w' = asked clk as w"
proof (induction as arbitrary: w)
  case Nil
  then show ?case by simp
next
  case (Cons b bs)
  obtain v ok where c: "CanUseProvider clk b w = (v, ok)" by (cases "CanUseProvider clk b w")
  from Cons.prems c have nok: "\<not> ok" and r: "firstAvailable clk bs v = (w', None)"
    by (auto split: if_splits bool.splits)
  from Cons.IH[OF r] have ih: "\<forall>j<length bs. \<not> permits clk bs v j" "w' = asked clk bs v" by auto
  have "\<forall>j<length (b # bs). \<not> permits clk (b # bs) w j"
  proof (intro allI impI)
    fix j assume "j < length (b # bs)"
    then show "\<not> permits clk (b # bs) w j" using ih(1) c nok by (cases j) auto
  qed
  with ih c show ?case by simp
qed


lemma leastRecent_gen:
  "(leastRecent m best as = best \<and> (\<forall>x\<in>set as. LastUsed (m best) \<le> LastUsed (m x)))
   \<or> (\<exists>i<length as. leastRecent m best as = as ! i
         \<and> LastUsed (m (as ! i)) < LastUsed (m best)
         \<and> (\<forall>j<i. LastUsed (m (as ! i)) < LastUsed (m (as ! j)))
         \<and> (\<forall>x\<in>set as. LastUsed (m (as ! i)) \<le> LastUsed (m x)))"
proof (induction as arbitrary: best)
  case Nil
  show ?case by simp
next
  case (Cons a as)
  let ?L = "\<lambda>x. LastUsed (m x)"
  show ?case
  proof (cases "?L a < ?L best")
    case True
    from Cons.IH[of a] show ?thesis
    proof
      assume h: "leastRecent m a as = a \<and> (\<forall>x\<in>set as. ?L a \<le> ?L x)"
      with True show ?thesis by (intro disjI2 exI[of _ 0]) simp
    next
      assume "\<exists>i<length as. leastRecent m a as = as ! i \<and> ?L (as ! i) < ?L a
         \<and> (\<forall>j<i. ?L (as ! i) < ?L (as ! j)) \<and> (\<forall>x\<in>set as. ?L (as ! i) \<le> ?L x)"
      then obtain i where i: "i < length as" "leastRecent m a as = as ! i" "?L (as ! i) < ?L a"
         "\<forall>j<i. ?L (as ! i) < ?L (as ! j)" "\<forall>x\<in>set as. ?L (as ! i) \<le> ?L x" by blast
      have "\<forall>j<Suc i. ?L (as ! i) < ?L ((a # as) ! j)"
      proof (intro allI impI)
        fix j assume "j < Suc i"
        then show "?L (as ! i) < ?L ((a # as) ! j)" using i(3,4) by (cases j) auto
      qed
      with i True show ?thesis by (intro disjI2 exI[of _ "Suc i"]) auto
    qed
  next
    case False
    from Cons.IH[of best] show ?thesis
    proof
      assume "leastRecent m best as = best \<and> (\<forall>x\<in>set as. ?L best \<le> ?L x)"
      with False show ?thesis by auto
    next
      assume "\<exists>i<length as. leastRecent m best as = as ! i \<and> ?L (as ! i) < ?L best
         \<and> (\<forall>j<i. ?L (as ! i) < ?L (as ! j)) \<and> (\<forall>x\<in>set as. ?L (as ! i) \<le> ?L x)"
      then obtain i where i: "i < length as" "leastRecent m best as = as ! i" "?L (as ! i) < ?L best"
         "\<forall>j<i. ?L (as ! i) < ?L (as ! j)" "\<forall>x\<in>set as. ?L (as ! i) \<le> ?L x" by blast
      have "\<forall>j<Suc i. ?L (as ! i) < ?L ((a # as) ! j)"
      proof (intro allI impI)
        fix j assume "j < Suc i"
        then show "?L (as ! i) < ?L ((a # as) ! j)" using i(3,4) False by (cases j) auto
      qed
      with i False show ?thesis by (intro disjI2 exI[of _ "Suc i"]) auto
    qed
  qed
qed

lemma leastRecent_spec:
  "\<exists>i<length (a # as). leastRecent m a as = (a # as) ! i
      \<and> (\<forall>j<i. LastUsed (m ((a # as) ! i)) < LastUsed (m ((a # as) ! j)))
      \<and> (\<forall>j<length (a # as). LastUsed (m ((a # as) ! i)) \<le> LastUsed (m ((a # as) ! j)))"
proof -
  let ?L = "\<lambda>x. LastUsed (m x)"
  from leastRecent_gen[of m a as] show ?thesis
  proof
    assume h: "leastRecent m a as = a \<and> (\<forall>x\<in>set as. ?L a \<le> ?L x)"
    have "\<forall>j<length (a # as). ?L a \<le> ?L ((a # as) ! j)"
    proof (intro allI impI)
      fix j assume "j < length (a # as)"
      then show "?L a \<le> ?L ((a # as) ! j)" using h by (cases j) auto
    qed
    with h show ?thesis by (intro exI[of _ 0]) simp
  next
    assume "\<exists>i<length as. leastRecent m a as = as ! i \<and> ?L (as ! i) < ?L a
         \<and> (\<forall>j<i. ?L (as ! i) < ?L (as ! j)) \<and> (\<forall>x\<in>set as. ?L (as ! i) \<le> ?L x)"
    then obtain i where i: "i < length as" "leastRecent m a as = as ! i" "?L (as ! i) < ?L a"
         "\<forall>j<i. ?L (as ! i) < ?L (as ! j)" "\<forall>x\<in>set as. ?L (as ! i) \<le> ?L x" by blast
    have 1: "\<forall>j<Suc i. ?L (as ! i) < ?L ((a # as) ! j)"
    proof (intro allI impI)
      fix j assume "j < Suc i"
      then show "?L (as ! i) < ?L ((a # as) ! j)" using i(3,4) by (cases j) auto
    qed
    have 2: "\<forall>j<length (a # as). ?L (as ! i) \<le> ?L ((a # as) ! j)"
    proof (intro allI impI)
      fix j assume "j < length (a # as)"
      then show "?L (as ! i) \<le> ?L ((a # as) ! j)" using i(3,5) by (cases j) auto
    qed
    from i 1 2 show ?thesis by (intro exI[of _ "Suc i"]) simp
  qed
qed

subsection \<open>The loop of the Anthropic translation\<close>

lemma splitSystem_text:
  "list_all (\<lambda>m. isText (Content m)) msgs \<Longrightarrow>
     splitSystem msgs sys acc
       = Return (if filter (\<lambda>m. Role m = ''system'') msgs = [] then sys else lastSystem msgs,
                 acc @ rolePairs msgs)"
proof (induction msgs arbitrary: sys acc)
  case Nil
  then show ?case by (simp add: rolePairs_def)
next
  case (Cons m ms)
  from Cons.prems obtain s where s: "Content m = Text s"
    by (cases "Content m") (auto simp: isText_def)
  from Cons.prems have ms: "list_all (\<lambda>m. isText (Content m)) ms" by simp
  show ?case
  proof (cases "Role m = ''system''")
    case True
    then show ?thesis using s Cons.IH [OF ms, of s acc]
      by (auto simp: lastSystem_def rolePairs_def textOf_def split: list.splits)
  next
    case False
    then show ?thesis using s Cons.IH [OF ms, of sys "acc @ [(Role m, s)]"]
      by (auto simp: lastSystem_def rolePairs_def textOf_def split: list.splits)
  qed
qed

subsection \<open>Selection leaves the lifetime statistics alone\<close>

lemma CanUseProvider_lifetime:
  "lifetime (mem (fst (CanUseProvider clk a w)) b) = lifetime (mem w b)"
  by (simp add: CanUseProvider_def Let_def lifetime_def)

lemma firstAvailable_lifetime:
  "lifetime (mem (fst (firstAvailable clk as w)) b) = lifetime (mem w b)"
proof (induction as arbitrary: w)
  case Nil
  show ?case by simp
next
  case (Cons a as)
  obtain v ok where c: "CanUseProvider clk a w = (v, ok)" by (cases "CanUseProvider clk a w")
  from CanUseProvider_lifetime [of clk a w b] c
  have v: "lifetime (mem v b) = lifetime (mem w b)" by simp
  show ?case
  proof (cases ok)
    case True
    with c v show ?thesis by simp
  next
    case False
    with c v Cons.IH [of v] show ?thesis by simp
  qed
qed

lemma SelectProvider_lifetime:
  "lifetime (mem (fst (SelectProvider clk w)) b) = lifetime (mem w b)"
proof -
  obtain v r where f: "firstAvailable clk (providers w) w = (v, r)"
    by (cases "firstAvailable clk (providers w) w")
  from firstAvailable_lifetime [of clk "providers w" w b] f
  have "lifetime (mem v b) = lifetime (mem w b)" by simp
  with f show ?thesis
    by (simp add: SelectProvider_def split: option.splits list.splits)
qed

subsection \<open>Unfolding the dispatcher on the examples\<close>

lemmas chat_defs = Chat_def Chat_attempt_def SelectProvider_def UpdateProviderStats_def
  ConvertToProviderFormat_def ParseProviderResponse_def endpoint_def headers_def
  ProviderGroq_def ProviderOpenAI_def ProviderAnthropic_def
  ex_lib_def ex_lib_ok_def ex_marshal_def ex_req_def ex_msg_def ex_usage_def

subsection \<open>Insertion sort under a comparison function that agrees with a ranking\<close>

lemma mset_sink: "mset (sink lessf x ys) = {#x#} + mset ys"
  by (induction ys) auto

lemma set_sink: "set (sink lessf x ys) = insert x (set ys)"
  using mset_sink [of lessf x ys] by (metis set_mset_mset set_mset_add_mset_insert add_mset_add_single union_commute)

lemma sink_descending:
  assumes "agrees lessf key"
  shows "sorted_wrt (\<lambda>a b. key b \<le> key a) ys \<Longrightarrow> sorted_wrt (\<lambda>a b. key b \<le> key a) (sink lessf x ys)"
proof (induction ys)
  case Nil
  show ?case by simp
next
  case (Cons y ys)
  from assms have ag: "lessf x y \<Longrightarrow> key x \<le> key y" "\<not> lessf x y \<Longrightarrow> key y \<le> key x"
    by (auto simp: agrees_def)
  from Cons.prems have ys: "sorted_wrt (\<lambda>a b. key b \<le> key a) ys" and le: "\<forall>z\<in>set ys. key z \<le> key y"
    by simp_all
  show ?case
  proof (cases "lessf x y")
    case True
    with ag(1) le Cons.IH [OF ys] show ?thesis by (auto simp: set_sink)
  next
    case False
    with ag(2) le Cons.prems show ?thesis by fastforce
  qed
qed

lemma foldl_sink_mset: "mset (foldl (\<lambda>before x. sink lessf x before) acc xs) = mset acc + mset xs"
  by (induction xs arbitrary: acc) (auto simp: mset_sink)

lemma foldl_sink_descending:
  assumes "agrees lessf key"
  shows "sorted_wrt (\<lambda>a b. key b \<le> key a) acc \<Longrightarrow>
         sorted_wrt (\<lambda>a b. key b \<le> key a) (foldl (\<lambda>before x. sink lessf x before) acc xs)"
  by (induction xs arbitrary: acc) (auto intro: sink_descending [OF assms])

lemma mset_insertionSort: "mset (insertionSort lessf xs) = mset xs"
  by (simp add: insertionSort_def foldl_sink_mset)

lemma sorted_insertionSort:
  assumes "agrees lessf key"
  shows "sorted (map key (insertionSort lessf xs))"
proof -
  have "sorted_wrt (\<lambda>a b. key b \<le> key a) (foldl (\<lambda>before x. sink lessf x before) [] xs)"
    by (rule foldl_sink_descending [OF assms]) simp
  then show ?thesis
    by (simp add: insertionSort_def sorted_map sorted_wrt_rev)
qed

lemma sortsByKey_insertionSort: "sortsByKey insertionSort"
  by (simp add: sortsByKey_def mset_insertionSort sorted_insertionSort)

lemma sint_Priority_eq:
  "sint (Priority p) = sint (Priority q) \<longleftrightarrow> Priority p = Priority q"
  by (auto intro: signed_word_eqI)

lemma agrees_priorityLess: "agrees (priorityLess m) (orderKey m)"
proof -
  have "(priorityLess m x y \<longrightarrow> orderKey m x \<le> orderKey m y)
      \<and> (\<not> priorityLess m x y \<longrightarrow> orderKey m y \<le> orderKey m x)" for x y
    using sint_Priority_eq [of "m x" "m y"]
    by (auto simp: priorityLess_def orderKey_def word_sless_alt)
  then show ?thesis by (simp add: agrees_def)
qed

lemma precedes_orderKey: "precedes m a b \<longleftrightarrow> orderKey m a \<le> orderKey m b"
  using sint_Priority_eq [of "m a" "m b"] by (auto simp: precedes_def orderKey_def)


lemma sort_Slice_sorts:
  assumes "agrees lessf key" and "12 < length xs \<longrightarrow> sortsByKey pdq"
  shows "mset (sort_Slice pdq lessf xs) = mset xs \<and> sorted (map key (sort_Slice pdq lessf xs))"
proof (cases "length xs \<le> 12")
  case True
  then show ?thesis
    by (simp add: sort_Slice_def mset_insertionSort sorted_insertionSort [OF assms(1)])
next
  case False
  with assms(2) have "sortsByKey pdq" by simp
  with assms(1) have "mset (pdq lessf xs) = mset xs \<and> sorted (map key (pdq lessf xs))"
    unfolding sortsByKey_def by blast
  with False show ?thesis by (simp add: sort_Slice_def)
qed

lemma AddProvider_sorts:
  assumes "12 \<le> length (providers w) \<longrightarrow> sortsByKey pdq"
  shows "mset (providers (AddProvider pdq clk a w)) = mset (providers w) + {#a#}
       \<and> sorted (map (orderKey (mem (AddProvider pdq clk a w))) (providers (AddProvider pdq clk a w)))"
proof -
  let ?m = "(mem w)(a := (mem w a)\<lparr>LastReset := clk (reads w)\<rparr>)"
  have l: "12 < length (providers w @ [a]) \<longrightarrow> sortsByKey pdq" using assms by simp
  from sort_Slice_sorts [OF agrees_priorityLess [of ?m] l]
  show ?thesis by (simp add: AddProvider_def Let_def)
qed

lemma AddProviders_Nil [simp]: "AddProviders pdq clk [] w = w"
  by (simp add: AddProviders_def)

lemma AddProviders_Cons [simp]:
  "AddProviders pdq clk (a # as) w = AddProviders pdq clk as (AddProvider pdq clk a w)"
  by (simp add: AddProviders_def)

lemma AddProviders_snoc:
  "AddProviders pdq clk (as @ [a]) w = AddProvider pdq clk a (AddProviders pdq clk as w)"
  by (simp add: AddProviders_def)

lemma AddProviders_mset:
  "12 < length (providers w) + length as \<longrightarrow> sortsByKey pdq \<Longrightarrow>
     mset (providers (AddProviders pdq clk as w)) = mset (providers w) + mset as"
proof (induction as arbitrary: w)
  case Nil
  show ?case by simp
next
  case (Cons a as)
  from Cons.prems have 1: "12 \<le> length (providers w) \<longrightarrow> sortsByKey pdq" by simp
  from AddProvider_sorts [OF 1, of clk a]
  have m: "mset (providers (AddProvider pdq clk a w)) = mset (providers w) + {#a#}" by simp
  then have "size (mset (providers (AddProvider pdq clk a w))) = size (mset (providers w) + {#a#})"
    by simp
  then have len: "length (providers (AddProvider pdq clk a w)) = Suc (length (providers w))"
    by simp
  from Cons.prems len
  have 2: "12 < length (providers (AddProvider pdq clk a w)) + length as \<longrightarrow> sortsByKey pdq"
    by simp
  from Cons.IH [OF 2] m show ?case by simp
qed

subsection \<open>Addition in Go's int\<close>

lemma sint_add_no_overflow:
  fixes a b :: int64
  assumes "- (2 ^ 63) \<le> sint a + sint b" and "sint a + sint b < 2 ^ 63"
  shows "sint (a + b) = sint a + sint b"
proof -
  have "sint (a + b) = signed_take_bit 63 (sint a + sint b)"
    by (simp add: sint_word_ariths)
  also have "\<dots> = sint a + sint b"
    using assms by (simp add: signed_take_bit_int_eq_self)
  finally show ?thesis .
qed

section \<open>Claims\<close>

text \<open>
  C1. For every pool state and every sequence of clock readings, \<open>SelectProvider\<close> asks the
  rate limiter about the registered destinations in the registry's order and returns the
  first one that it permits, the state being the one left by the checks up to that
  destination. If the rate limiter permits none and the registry is not empty, the state
  is the one left by all the checks and the destination returned has the earliest
  last-used timestamp of all registered destinations, whatever its priority (the first
  such destination in the registry's order when several share that timestamp). On an empty
  registry the result is the error "no providers available".
\<close>

theorem SelectProvider_first_available_else_coldest:
  fixes clk :: "nat \<Rightarrow> time" and w :: World
  defines "ps \<equiv> providers w"
  defines "w' \<equiv> fst (SelectProvider clk w)"
  defines "r \<equiv> snd (SelectProvider clk w)"
  shows "(\<forall>i<length ps. permits clk ps w i \<and> (\<forall>j<i. \<not> permits clk ps w j) \<longrightarrow>
            r = Inr (ps ! i) \<and> w' = asked clk (take (Suc i) ps) w)
       \<and> (ps \<noteq> [] \<and> (\<forall>j<length ps. \<not> permits clk ps w j) \<longrightarrow>
            w' = asked clk ps w
            \<and> (\<exists>i<length ps. r = Inr (ps ! i)
                 \<and> (\<forall>j<length ps. LastUsed (mem w' (ps ! i)) \<le> LastUsed (mem w' (ps ! j)))
                 \<and> (\<forall>j<i. LastUsed (mem w' (ps ! i)) < LastUsed (mem w' (ps ! j)))))
       \<and> (ps = [] \<longrightarrow> r = Inl NoProvidersAvailable \<and> w' = w)"
proof -
  have A: "r = Inr (ps ! i) \<and> w' = asked clk (take (Suc i) ps) w"
    if i: "i < length ps" and p: "permits clk ps w i \<and> (\<forall>j<i. \<not> permits clk ps w j)" for i
  proof -
    obtain v res where f: "firstAvailable clk ps w = (v, res)" by (cases "firstAvailable clk ps w")
    show "r = Inr (ps ! i) \<and> w' = asked clk (take (Suc i) ps) w"
    proof (cases res)
      case None
      with f firstAvailable_None[of clk ps w v] i p show ?thesis by blast
    next
      case (Some a)
      with f firstAvailable_Some[of clk ps w v a] obtain k where k: "k < length ps" "a = ps ! k"
        "permits clk ps w k" "\<forall>j<k. \<not> permits clk ps w j" "v = asked clk (take (Suc k) ps) w"
        by blast
      have "k = i" using k(3,4) p by (meson nat_neq_iff)
      with k f Some show ?thesis by (simp add: r_def w'_def SelectProvider_def ps_def)
    qed
  qed
  have B: "w' = asked clk ps w
              \<and> (\<exists>i<length ps. r = Inr (ps ! i)
                   \<and> (\<forall>j<length ps. LastUsed (mem w' (ps ! i)) \<le> LastUsed (mem w' (ps ! j)))
                   \<and> (\<forall>j<i. LastUsed (mem w' (ps ! i)) < LastUsed (mem w' (ps ! j))))"
    if h: "ps \<noteq> [] \<and> (\<forall>j<length ps. \<not> permits clk ps w j)"
  proof -
    obtain v res where f: "firstAvailable clk ps w = (v, res)" by (cases "firstAvailable clk ps w")
    have res: "res = None"
    proof (cases res)
      case (Some a)
      with f firstAvailable_Some[of clk ps w v a] h show ?thesis by blast
    qed
    with f firstAvailable_None[of clk ps w v] have v: "v = asked clk ps w" by blast
    obtain a as where ps: "ps = a # as" using h by (cases ps) auto
    have pv: "providers v = a # as" using v ps by (simp add: ps_def)
    have w': "w' = v" and r: "r = Inr (leastRecent (mem v) a as)"
      using f res pv by (simp_all add: w'_def r_def SelectProvider_def ps_def)
    have 1: "w' = asked clk ps w" using w' v by simp
    from leastRecent_spec[of a as "mem v"]
    have 2: "\<exists>i<length ps. r = Inr (ps ! i)
                   \<and> (\<forall>j<length ps. LastUsed (mem w' (ps ! i)) \<le> LastUsed (mem w' (ps ! j)))
                   \<and> (\<forall>j<i. LastUsed (mem w' (ps ! i)) < LastUsed (mem w' (ps ! j)))"
      unfolding w' r ps by blast
    from 1 2 show ?thesis by blast
  qed
  have C: "r = Inl NoProvidersAvailable \<and> w' = w" if "ps = []"
    using that by (simp add: r_def w'_def SelectProvider_def ps_def)
  from A B C show ?thesis by blast
qed

text \<open>
  The theorem at three pools: the first destination is exhausted and the second is
  returned; both destinations are exhausted and the one used longest ago is returned;
  the registry is empty.
\<close>

theorem SelectProvider_first_available_else_coldest_witness:
  "snd (SelectProvider ex_clk (ex_world [0, 1, 2])) = Inr 1
   \<and> snd (SelectProvider ex_clk (ex_world [0, 2])) = Inr 2
   \<and> snd (SelectProvider ex_clk (ex_world [])) = Inl NoProvidersAvailable"
proof -
  have 1: "permits ex_clk [0, 1, 2] (ex_world [0, 1, 2]) 1
           \<and> (\<forall>j<1. \<not> permits ex_clk [0, 1, 2] (ex_world [0, 1, 2]) j)"
    by (simp add: ex_defs)
  have 2: "\<forall>j<2. \<not> permits ex_clk [0, 2] (ex_world [0, 2]) j"
    by (simp add: ex_defs less_Suc_eq numeral_2_eq_2)
  have 3: "providers (ex_world ps) = ps" for ps by (simp add: ex_world_def)
  have a: "snd (SelectProvider ex_clk (ex_world [0, 1, 2])) = Inr 1"
    using SelectProvider_first_available_else_coldest[of "ex_world [0, 1, 2]" ex_clk, THEN conjunct1, THEN spec, of 1] 1
    unfolding 3 by simp
  have "\<exists>i<length [0, 2::nat]. snd (SelectProvider ex_clk (ex_world [0, 2])) = Inr ([0, 2] ! i)
          \<and> (\<forall>j<length [0, 2::nat].
                LastUsed (mem (asked ex_clk [0, 2] (ex_world [0, 2])) ([0, 2] ! i))
                \<le> LastUsed (mem (asked ex_clk [0, 2] (ex_world [0, 2])) ([0, 2] ! j)))"
    using SelectProvider_first_available_else_coldest[of "ex_world [0, 2]" ex_clk, THEN conjunct2, THEN conjunct1] 2
    unfolding 3 by auto
  then have b: "snd (SelectProvider ex_clk (ex_world [0, 2])) = Inr 2"
    by (auto simp: ex_defs less_Suc_eq numeral_2_eq_2)
  have c: "snd (SelectProvider ex_clk (ex_world [])) = Inl NoProvidersAvailable"
    using SelectProvider_first_available_else_coldest[of "ex_world []" ex_clk] unfolding 3 by simp
  from a b c show ?thesis by simp
qed

text \<open>
  C2. For every destination and every instant read, the rate-limit check resets the window
  count to zero and sets the window start to that instant when at least one minute has
  passed since the window's start, and otherwise leaves the destination as it is; no other
  destination and no registry entry is touched. It then permits the call if and only if the
  window count it leaves is strictly less than the quota. The window count is never
  negative in the data model (the package only sets it to zero and counts it up), and the
  check keeps it so; on such a count, and also whenever the window was reset, a destination
  with quota zero is not permitted.
\<close>

theorem CanUseProvider_fixed_window:
  fixes clk :: "nat \<Rightarrow> time" and a :: addr and w :: World
  defines "now \<equiv> clk (reads w)"
  defines "p \<equiv> mem w a"
  defines "w' \<equiv> fst (CanUseProvider clk a w)"
  defines "ok \<equiv> snd (CanUseProvider clk a w)"
  shows "(Minute \<le> now - LastReset p \<longrightarrow>
            mem w' a = p\<lparr>RequestCount := 0, LastReset := now\<rparr>)
       \<and> (\<not> Minute \<le> now - LastReset p \<longrightarrow> mem w' a = p)
       \<and> (\<forall>b. b \<noteq> a \<longrightarrow> mem w' b = mem w b)
       \<and> providers w' = providers w
       \<and> (ok \<longleftrightarrow> sint (RequestCount (mem w' a)) < sint (RequestsPerMinute p))
       \<and> (0 \<le> sint (RequestCount p) \<longrightarrow> 0 \<le> sint (RequestCount (mem w' a)))
       \<and> (RequestsPerMinute p = 0 \<and> (Minute \<le> now - LastReset p \<or> 0 \<le> sint (RequestCount p))
            \<longrightarrow> \<not> ok)"
  by (auto simp: CanUseProvider_def Let_def word_sless_alt now_def p_def w'_def ok_def)

text \<open>
  The theorem at a destination with quota zero and count zero inside its window, which is
  not permitted, and at an exhausted destination one minute after its window's start,
  whose window is reset.
\<close>

theorem CanUseProvider_fixed_window_witness:
  "\<not> snd (CanUseProvider ex_clk 3 (ex_world [3]))
   \<and> mem (fst (CanUseProvider ex_late 0 (ex_world [0]))) 0
       = (ex_mem 0)\<lparr>RequestCount := 0, LastReset := Minute\<rparr>
   \<and> mem (fst (CanUseProvider ex_clk 0 (ex_world [0]))) 0 = ex_mem 0"
proof -
  have 1: "RequestsPerMinute (mem (ex_world [3]) 3) = 0
           \<and> (Minute \<le> ex_clk (reads (ex_world [3])) - LastReset (mem (ex_world [3]) 3)
              \<or> 0 \<le> sint (RequestCount (mem (ex_world [3]) 3)))"
    by (simp add: ex_defs)
  have 2: "Minute \<le> ex_late (reads (ex_world [0])) - LastReset (mem (ex_world [0]) 0)"
    by (simp add: ex_defs)
  have 3: "\<not> Minute \<le> ex_clk (reads (ex_world [0])) - LastReset (mem (ex_world [0]) 0)"
    by (simp add: ex_defs)
  have 4: "mem (ex_world [0]) = ex_mem" "ex_late (reads (ex_world [0])) = Minute"
    by (simp_all add: ex_world_def ex_late_def)
  from CanUseProvider_fixed_window [of ex_clk "ex_world [3]" 3] 1
  have a: "\<not> snd (CanUseProvider ex_clk 3 (ex_world [3]))" by blast
  from CanUseProvider_fixed_window [of ex_late "ex_world [0]" 0] 2
  have b: "mem (fst (CanUseProvider ex_late 0 (ex_world [0]))) 0
             = (ex_mem 0)\<lparr>RequestCount := 0, LastReset := Minute\<rparr>"
    unfolding 4 by blast
  from CanUseProvider_fixed_window [of ex_clk "ex_world [0]" 0] 3
  have c: "mem (fst (CanUseProvider ex_clk 0 (ex_world [0]))) 0 = ex_mem 0"
    unfolding 4 by blast
  from a b c show ?thesis by blast
qed

text \<open>
  C3, as amended. Within one \<open>Chat\<close> dispatch, every attempt that gets as far as the
  network call, whether it then fails in \<open>client.Do\<close>, in reading the body, on a status
  other than 200 or in parsing, or succeeds, updates the statistics of the destination
  selected for it exactly once: window count and total count go up by one, the last-used
  time becomes the instant read, and the error count goes up by one if and only if the
  attempt failed; no other destination is touched. An attempt that fails before the network
  call (translation fails or panics, or the HTTP request cannot be made) updates nothing.
  Selection itself changes no total count, error count or last-used time. So when all
  attempts fail, each attempt that reached the network call has added exactly one to the
  error count of the destination selected for it, and a destination selected for several
  attempts has been counted once for each.
\<close>

theorem Chat_attempt_statistics:
  fixes clk :: "nat \<Rightarrow> time" and lib :: "'f Library" and req :: "'f ChatRequest"
    and retry :: nat and w w1 :: World and a :: addr
  assumes "SelectProvider clk w = (w1, Inr a)"
  defines "p \<equiv> mem w1 a"
  defines "w2 \<equiv> fst (Chat_attempt clk lib req retry w)"
  defines "res \<equiv> snd (Chat_attempt clk lib req retry w)"
  shows "(dispatched lib p req retry \<longrightarrow>
            mem w2 = (mem w1)(a := p\<lparr>RequestCount := RequestCount p + 1,
                                      TotalRequests := TotalRequests p + 1,
                                      Errors := Errors p + (if succeeded res then 0 else 1),
                                      LastUsed := clk (reads w1)\<rparr>))
       \<and> (\<not> dispatched lib p req retry \<longrightarrow> w2 = w1 \<and> \<not> succeeded res)
       \<and> providers w2 = providers w1
       \<and> (\<forall>b. lifetime (mem w1 b) = lifetime (mem w b))"
proof -
  have "\<forall>b. lifetime (mem w1 b) = lifetime (mem w b)"
    using SelectProvider_lifetime [of clk w] assms(1) by simp
  moreover have "(dispatched lib p req retry \<longrightarrow>
            mem w2 = (mem w1)(a := p\<lparr>RequestCount := RequestCount p + 1,
                                      TotalRequests := TotalRequests p + 1,
                                      Errors := Errors p + (if succeeded res then 0 else 1),
                                      LastUsed := clk (reads w1)\<rparr>))
       \<and> (\<not> dispatched lib p req retry \<longrightarrow> w2 = w1 \<and> \<not> succeeded res)
       \<and> providers w2 = providers w1"
    using assms(1) unfolding p_def w2_def res_def
    by (auto simp: Chat_attempt_def dispatched_def succeeded_def UpdateProviderStats_def Let_def
        split: outcome.splits sum.splits exchange.splits if_splits)
  ultimately show ?thesis by blast
qed

text \<open>
  The theorem at an attempt answered with status 500, at an attempt answered with status
  200, and at an attempt whose translation fails; the triples are total count, error count
  and last-used time.
\<close>

theorem Chat_attempt_statistics_witness:
  "lifetime (mem (fst (Chat_attempt ex_clk ex_lib (ex_req [ex_msg ''user'' ''hi'']) 0
                         (ex_world [6, 1]))) 6) = (1, 1, 1001)
   \<and> lifetime (mem (fst (Chat_attempt ex_clk ex_lib_ok (ex_req [ex_msg ''user'' ''hi'']) 0
                         (ex_world [6, 1]))) 6) = (1, 0, 1001)
   \<and> lifetime (mem (fst (Chat_attempt ex_clk ex_lib (ex_req [ex_msg ''user'' ''hi'']) 0
                         (ex_world [5, 1]))) 5) = (0, 0, 0)"
proof -
  let ?req = "ex_req [ex_msg ''user'' ''hi'']"
  let ?w = "ex_world [6, 1]" and ?v = "ex_world [5, 1]"
  let ?w1 = "fst (SelectProvider ex_clk ?w)" and ?v1 = "fst (SelectProvider ex_clk ?v)"
  have s: "SelectProvider ex_clk ?w = (?w1, Inr 6)" "SelectProvider ex_clk ?v = (?v1, Inr 5)"
    by (simp_all add: SelectProvider_def ex_defs)
  have m: "mem ?w1 6 = ex_mem 6" "reads ?w1 = 1" "mem ?v1 5 = ex_mem 5"
    by (simp_all add: SelectProvider_def ex_defs)
  have d: "dispatched ex_lib (ex_mem 6) ?req 0" "dispatched ex_lib_ok (ex_mem 6) ?req 0"
    "\<not> dispatched ex_lib (ex_mem 5) ?req 0"
    by (simp_all add: dispatched_def chat_defs ex_mem_def ex_provider_def)
  have r: "\<not> succeeded (snd (Chat_attempt ex_clk ex_lib ?req 0 ?w))"
    "succeeded (snd (Chat_attempt ex_clk ex_lib_ok ?req 0 ?w))"
    by (simp_all add: succeeded_def chat_defs ex_defs)
  have l: "lifetime (ex_mem 6) = (0, 0, 0)" "lifetime (ex_mem 5) = (0, 0, 0)"
    by (simp_all add: lifetime_def ex_mem_def ex_provider_def)
  from Chat_attempt_statistics [OF s(1), of ex_lib ?req 0] d(1) r(1)
  have a: "lifetime (mem (fst (Chat_attempt ex_clk ex_lib ?req 0 ?w)) 6) = (1, 1, 1001)"
    unfolding m using l(1) by (simp add: lifetime_def ex_clk_def)
  from Chat_attempt_statistics [OF s(1), of ex_lib_ok ?req 0] d(2) r(2)
  have b: "lifetime (mem (fst (Chat_attempt ex_clk ex_lib_ok ?req 0 ?w)) 6) = (1, 0, 1001)"
    unfolding m using l(1) by (simp add: lifetime_def ex_clk_def)
  from Chat_attempt_statistics [OF s(2), of ex_lib ?req 0] d(3)
  have c: "lifetime (mem (fst (Chat_attempt ex_clk ex_lib ?req 0 ?v)) 5) = (0, 0, 0)"
    unfolding m using l(2) m(3) by simp
  from a b c show ?thesis by blast
qed

text \<open>
  C3 as stated fails twice. A pool of one destination with an unknown protocol tag: the one
  attempt fails in translation and the destination's statistics are as before. A pool of
  two destinations where every call is answered with status 500: both attempts select the
  first destination, whose error count goes from 0 to 2, and the second is never tried.
\<close>

theorem Chat_statistics_counterexample:
  "snd (Chat ex_clk ex_lib (ex_req [ex_msg ''user'' ''hi'']) (ex_world [5]))
     = Return (Inl (AllProvidersFailed (Some (UnsupportedProviderType ''mistral''))))
   \<and> lifetime (mem (ex_world [5]) 5) = (0, 0, 0)
   \<and> lifetime (mem (fst (Chat ex_clk ex_lib (ex_req [ex_msg ''user'' ''hi'']) (ex_world [5]))) 5)
       = (0, 0, 0)
   \<and> snd (Chat ex_clk ex_lib (ex_req [ex_msg ''user'' ''hi'']) (ex_world [6, 1]))
     = Return (Inl (AllProvidersFailed (Some (ProviderReturnedStatus ''g'' 500 ''overloaded''))))
   \<and> Errors (mem (ex_world [6, 1]) 6) = 0
   \<and> Errors (mem (fst (Chat ex_clk ex_lib (ex_req [ex_msg ''user'' ''hi'']) (ex_world [6, 1]))) 6)
       = 2
   \<and> Errors (mem (fst (Chat ex_clk ex_lib (ex_req [ex_msg ''user'' ''hi'']) (ex_world [6, 1]))) 1)
       = 0"
  by (simp add: chat_defs Chat_loop.simps ex_defs lifetime_def)

text \<open>
  C4, as amended. For every request routed to the Anthropic family whose messages all have
  plain-text content, translation takes every system-role message out of the message list,
  puts the content of the last of them into the top-level field \<open>system\<close> (each system
  message overwrites the one before, nothing is merged, and the field is left out when
  that content is the empty string), and reduces the remaining messages, in order, to
  pairs of role and content.
\<close>

theorem ConvertToProviderFormat_last_system_wins:
  assumes "Type provider = ProviderAnthropic"
    and "list_all (\<lambda>m. isText (Content m)) (Messages req)"
  shows "ConvertToProviderFormat marshal provider req
           = Return (marshal (AnthropicRequest (Model provider) (MaxTokens req) (Temperature req)
                       (rolePairs (Messages req))
                       (if lastSystem (Messages req) \<noteq> [] then Some (lastSystem (Messages req))
                        else None)))"
proof -
  have "splitSystem (Messages req) [] [] = Return (lastSystem (Messages req), rolePairs (Messages req))"
    using splitSystem_text [OF assms(2), of "[]" "[]"] by (simp add: lastSystem_def)
  with assms(1) show ?thesis
    by (simp add: ConvertToProviderFormat_def ProviderAnthropic_def ProviderGroq_def
        ProviderOpenAI_def)
qed

text \<open>The theorem at a request with the system messages \<open>A\<close> and \<open>B\<close>, in this order.\<close>

theorem ConvertToProviderFormat_last_system_wins_witness:
  "ConvertToProviderFormat ex_marshal (ex_mem 2)
       (ex_req [ex_msg ''system'' ''A'', ex_msg ''user'' ''hi'', ex_msg ''system'' ''B'',
                ex_msg ''assistant'' ''ho''])
     = Return (ex_marshal (AnthropicRequest ''m'' 100 ()
                 [(''user'', ''hi''), (''assistant'', ''ho'')] (Some ''B'')))"
proof -
  let ?msgs = "[ex_msg ''system'' ''A'', ex_msg ''user'' ''hi'', ex_msg ''system'' ''B'',
                ex_msg ''assistant'' ''ho'']"
  have 1: "Type (ex_mem 2) = ProviderAnthropic"
    by (simp add: ex_mem_def ex_provider_def ProviderAnthropic_def)
  have 2: "list_all (\<lambda>m. isText (Content m)) (Messages (ex_req ?msgs))"
    by (simp add: ex_req_def ex_msg_def isText_def)
  have 3: "lastSystem (Messages (ex_req ?msgs)) = ''B''"
    "rolePairs (Messages (ex_req ?msgs)) = [(''user'', ''hi''), (''assistant'', ''ho'')]"
    "Model (ex_mem 2) = ''m''" "MaxTokens (ex_req ?msgs) = 100"
    by (simp_all add: ex_req_def ex_msg_def lastSystem_def rolePairs_def textOf_def ex_mem_def
        ex_provider_def)
  from ConvertToProviderFormat_last_system_wins [OF 1 2, of ex_marshal]
  show ?thesis unfolding 3 by simp
qed

text \<open>
  C4 as stated fails: with the system messages \<open>A\<close> then \<open>B\<close>, the field \<open>system\<close> is
  \<open>B\<close>, not the first message \<open>A\<close>.
\<close>

theorem ConvertToProviderFormat_first_system_counterexample:
  "ConvertToProviderFormat ex_marshal (ex_mem 2)
       (ex_req [ex_msg ''system'' ''A'', ex_msg ''system'' ''B'', ex_msg ''user'' ''hi''])
     = Return (Inr ''anthropic model=m system=B user=hi'')
   \<and> splitSystem [ex_msg ''system'' ''A'', ex_msg ''system'' ''B'', ex_msg ''user'' ''hi''] [] []
     = Return (''B'', [(''user'', ''hi'')])"
  by (simp add: ConvertToProviderFormat_def ex_mem_def ex_provider_def ex_req_def ex_msg_def
      ex_marshal_def ProviderAnthropic_def ProviderGroq_def ProviderOpenAI_def)

text \<open>
  C5. A request with structured content (a list of typed parts) routed to the Anthropic
  family must make translation return an explicit error. It does not: wherever the message
  with the parts stands in the request, and whatever its role, the unchecked type
  assertion \<open>msg.Content.(string)\<close> panics and \<open>ConvertToProviderFormat\<close> does not
  return.
\<close>

theorem ConvertToProviderFormat_Parts_panics:
  "ConvertToProviderFormat marshal (provider\<lparr>Type := ProviderAnthropic\<rparr>)
     (req\<lparr>Messages := before @ \<lparr>Role = r, Content = Parts ps\<rparr> # rest\<rparr>) = Panic"
proof -
  have "splitSystem (before @ \<lparr>Role = r, Content = Parts ps\<rparr> # rest) s ms = Panic" for s ms
    by (induction before arbitrary: s ms) (auto split: content.splits)
  then show ?thesis
    by (simp add: ConvertToProviderFormat_def ProviderAnthropic_def ProviderGroq_def ProviderOpenAI_def)
qed




text \<open>
  C7, as amended. After every sequence of \<open>AddProvider\<close> calls on a new pool, the registry
  holds exactly the providers added, its iteration order is non-decreasing in priority, and
  among destinations of equal priority no destination that is not of type Groq stands
  before one that is. For more than 12 destinations this rests on the library's sort
  ordering the slice by the comparison function it is given (\<open>sortsByKey\<close>); up to 12 the
  library's insertion sort is modelled. Nothing is said about the order among destinations
  of equal priority and equal type: no tie-break fixes it.
\<close>

theorem AddProvider_registry_order:
  fixes pdq :: "(addr \<Rightarrow> addr \<Rightarrow> bool) \<Rightarrow> addr list \<Rightarrow> addr list"
    and clk :: "nat \<Rightarrow> time" and m :: "addr \<Rightarrow> Provider" and as :: "addr list"
  defines "w' \<equiv> AddProviders pdq clk as (NewPool m)"
  assumes "12 < length as \<longrightarrow> sortsByKey pdq"
  shows "mset (providers w') = mset as
       \<and> sorted (map (\<lambda>a. sint (Priority (mem w' a))) (providers w'))
       \<and> sorted_wrt (precedes (mem w')) (providers w')"
proof -
  have p0: "providers (NewPool m) = []" by (simp add: NewPool_def)
  have ms: "mset (providers w') = mset as"
    using AddProviders_mset [of "NewPool m" as pdq clk] assms(2) unfolding w'_def p0 by simp
  have key: "sorted (map (orderKey (mem w')) (providers w'))"
  proof (cases as rule: rev_cases)
    case Nil
    then show ?thesis by (simp add: w'_def p0)
  next
    case (snoc bs a)
    let ?v = "AddProviders pdq clk bs (NewPool m)"
    have "12 < length (providers (NewPool m)) + length bs \<longrightarrow> sortsByKey pdq"
      using assms(2) snoc by (simp add: p0)
    from AddProviders_mset [OF this, of clk] have "mset (providers ?v) = mset bs" by (simp add: p0)
    then have "size (mset (providers ?v)) = size (mset bs)" by simp
    then have "length (providers ?v) = length bs" by simp
    with assms(2) snoc have "12 \<le> length (providers ?v) \<longrightarrow> sortsByKey pdq" by simp
    from AddProvider_sorts [OF this, of clk a] show ?thesis
      by (simp add: w'_def snoc AddProviders_snoc)
  qed
  then have k: "sorted_wrt (\<lambda>a b. orderKey (mem w') a \<le> orderKey (mem w') b) (providers w')"
    by (simp add: sorted_map)
  have "precedes (mem w') = (\<lambda>a b. orderKey (mem w') a \<le> orderKey (mem w') b)"
    by (intro ext) (rule precedes_orderKey)
  with k have pr: "sorted_wrt (precedes (mem w')) (providers w')" by simp
  have "sorted_wrt (\<lambda>a b. sint (Priority (mem w' a)) \<le> sint (Priority (mem w' b))) (providers w')"
    by (rule sorted_wrt_mono_rel [OF _ k]) (auto simp: orderKey_def split: if_splits)
  then have "sorted (map (\<lambda>a. sint (Priority (mem w' a))) (providers w'))"
    by (simp add: sorted_map)
  with ms pr show ?thesis by blast
qed

text \<open>
  The theorem at four providers, and at fourteen providers with the insertion sort standing
  for the library's sort of long slices, which it may, since it orders by every ranking
  the comparison function agrees with.
\<close>

theorem AddProvider_registry_order_witness:
  "mset (providers (AddProviders insertionSort ex_clk [3, 1, 6, 0] (NewPool ex_mem))) = mset [3, 1, 6, 0]
   \<and> sorted_wrt (precedes (mem (AddProviders insertionSort ex_clk [3, 1, 6, 0] (NewPool ex_mem))))
        (providers (AddProviders insertionSort ex_clk [3, 1, 6, 0] (NewPool ex_mem)))
   \<and> sorted_wrt (precedes (mem (AddProviders insertionSort ex_clk
                                   [3, 1, 6, 0, 2, 4, 5, 7, 8, 9, 10, 11, 12, 13] (NewPool ex_mem))))
        (providers (AddProviders insertionSort ex_clk
                      [3, 1, 6, 0, 2, 4, 5, 7, 8, 9, 10, 11, 12, 13] (NewPool ex_mem)))"
proof -
  have 1: "12 < length [3, 1, 6, 0 :: addr] \<longrightarrow> sortsByKey (insertionSort :: (addr \<Rightarrow> addr \<Rightarrow> bool) \<Rightarrow> _)"
    by simp
  have 2: "12 < length [3, 1, 6, 0, 2, 4, 5, 7, 8, 9, 10, 11, 12, 13 :: addr]
             \<longrightarrow> sortsByKey (insertionSort :: (addr \<Rightarrow> addr \<Rightarrow> bool) \<Rightarrow> _)"
    by (simp add: sortsByKey_insertionSort)
  from AddProvider_registry_order [OF 1, of ex_clk ex_mem]
       AddProvider_registry_order [OF 2, of ex_clk ex_mem]
  show ?thesis by blast
qed

text \<open>
  C7 as stated fails: the order is not determined by the set of providers. Two OpenAI
  destinations of priority 1 stay in the order in which they were added, whichever it is.
  Two Groq destinations of priority 1 are exchanged by every sort, since each of them
  compares as less than the other: added as 0 then 8 they stand as 8, 0, and after one more
  provider of another priority is added they stand as 0, 8.
\<close>

theorem AddProvider_tie_order_counterexample:
  "providers (AddProviders insertionSort ex_clk [6, 7] (NewPool ex_mem)) = [6, 7]
   \<and> providers (AddProviders insertionSort ex_clk [7, 6] (NewPool ex_mem)) = [7, 6]
   \<and> Priority (ex_mem 6) = Priority (ex_mem 7) \<and> Type (ex_mem 6) = Type (ex_mem 7)
   \<and> providers (AddProviders insertionSort ex_clk [0, 8] (NewPool ex_mem)) = [8, 0]
   \<and> providers (AddProviders insertionSort ex_clk [0, 8, 3] (NewPool ex_mem)) = [0, 8, 3]
   \<and> Priority (ex_mem 0) = Priority (ex_mem 8) \<and> Type (ex_mem 0) = Type (ex_mem 8)"
  by (simp add: AddProviders_def AddProvider_def sort_Slice_def insertionSort_def priorityLess_def
      NewPool_def ex_mem_def ex_provider_def ProviderGroq_def Let_def word_sless_alt)

text \<open>
  C8, as amended. Chat-completions family (Groq, OpenAI): the request is translated to the
  body with model, messages, temperature, max_tokens and stream, and a body that decodes to
  a wire response is parsed to a canonical response whose content is the first choice's
  message content and whose usage is the wire usage passed through, field by field: the
  total is the wire response's total, which is the sum of the prompt and completion counts
  only when the wire response's total is. Anthropic family: a plain-text request is
  translated to the Anthropic body, and a body that decodes to a wire response is parsed to
  a canonical response whose content is the first content block's text, whose prompt and
  completion counts are the input and output counts and whose total is their sum in Go's
  \<open>int\<close>, which is the sum of the two integers whenever that is in the range of \<open>int\<close>.
\<close>

theorem translate_then_parse:
  fixes lib :: "'f Library" and provider :: Provider and req :: "'f ChatRequest" and body :: string
  shows
  "(Type provider = ProviderGroq \<or> Type provider = ProviderOpenAI \<longrightarrow>
      ConvertToProviderFormat (Marshal lib) provider req
        = Return (Marshal lib (OpenAIRequest (Model provider) (Messages req) (Temperature req)
                                 (MaxTokens req) (Stream req)))
      \<and> (\<forall>r. Unmarshal_openai lib body = Inr r \<longrightarrow>
            (\<exists>resp. ParseProviderResponse lib provider body = Inr resp
               \<and> (\<forall>text others. oa_choices r = text # others \<longrightarrow> resp_Content resp = text)
               \<and> resp_Usage resp = oa_usage r
               \<and> (TotalTokens (oa_usage r) = PromptTokens (oa_usage r) + CompletionTokens (oa_usage r)
                    \<longrightarrow> TotalTokens (resp_Usage resp)
                          = PromptTokens (oa_usage r) + CompletionTokens (oa_usage r))
               \<and> ID resp = oa_id r \<and> resp_Model resp = oa_model r
               \<and> resp_Provider resp = Name provider)))
   \<and> (Type provider = ProviderAnthropic \<longrightarrow>
        (list_all (\<lambda>m. isText (Content m)) (Messages req) \<longrightarrow>
           ConvertToProviderFormat (Marshal lib) provider req
             = Return (Marshal lib (AnthropicRequest (Model provider) (MaxTokens req)
                 (Temperature req) (rolePairs (Messages req))
                 (if lastSystem (Messages req) \<noteq> [] then Some (lastSystem (Messages req))
                  else None))))
      \<and> (\<forall>r. Unmarshal_anthropic lib body = Inr r \<longrightarrow>
            (\<exists>resp. ParseProviderResponse lib provider body = Inr resp
               \<and> (\<forall>text others. an_content r = text # others \<longrightarrow> resp_Content resp = text)
               \<and> PromptTokens (resp_Usage resp) = an_input_tokens r
               \<and> CompletionTokens (resp_Usage resp) = an_output_tokens r
               \<and> TotalTokens (resp_Usage resp) = an_input_tokens r + an_output_tokens r
               \<and> (- (2 ^ 63) \<le> sint (an_input_tokens r) + sint (an_output_tokens r)
                    \<and> sint (an_input_tokens r) + sint (an_output_tokens r) < 2 ^ 63
                  \<longrightarrow> sint (TotalTokens (resp_Usage resp))
                        = sint (an_input_tokens r) + sint (an_output_tokens r))
               \<and> ID resp = an_id r \<and> resp_Model resp = an_model r
               \<and> resp_Provider resp = Name provider)))"
proof -
  have A: "ConvertToProviderFormat (Marshal lib) provider req
        = Return (Marshal lib (OpenAIRequest (Model provider) (Messages req) (Temperature req)
                                 (MaxTokens req) (Stream req)))"
    if "Type provider = ProviderGroq \<or> Type provider = ProviderOpenAI"
    using that by (auto simp: ConvertToProviderFormat_def)
  have B: "\<exists>resp. ParseProviderResponse lib provider body = Inr resp
               \<and> (\<forall>text others. oa_choices r = text # others \<longrightarrow> resp_Content resp = text)
               \<and> resp_Usage resp = oa_usage r
               \<and> (TotalTokens (oa_usage r) = PromptTokens (oa_usage r) + CompletionTokens (oa_usage r)
                    \<longrightarrow> TotalTokens (resp_Usage resp)
                          = PromptTokens (oa_usage r) + CompletionTokens (oa_usage r))
               \<and> ID resp = oa_id r \<and> resp_Model resp = oa_model r
               \<and> resp_Provider resp = Name provider"
    if "Type provider = ProviderGroq \<or> Type provider = ProviderOpenAI"
      and "Unmarshal_openai lib body = Inr r" for r
    using that by (auto simp: ParseProviderResponse_def)
  have ne: "ProviderAnthropic \<noteq> ProviderGroq" "ProviderAnthropic \<noteq> ProviderOpenAI"
    by (simp_all add: ProviderAnthropic_def ProviderGroq_def ProviderOpenAI_def)
  have C: "ConvertToProviderFormat (Marshal lib) provider req
             = Return (Marshal lib (AnthropicRequest (Model provider) (MaxTokens req)
                 (Temperature req) (rolePairs (Messages req))
                 (if lastSystem (Messages req) \<noteq> [] then Some (lastSystem (Messages req))
                  else None)))"
    if "Type provider = ProviderAnthropic" and "list_all (\<lambda>m. isText (Content m)) (Messages req)"
    using splitSystem_text [OF that(2), of "[]" "[]"] that(1) ne
    by (simp add: ConvertToProviderFormat_def lastSystem_def)
  have D: "\<exists>resp. ParseProviderResponse lib provider body = Inr resp
               \<and> (\<forall>text others. an_content r = text # others \<longrightarrow> resp_Content resp = text)
               \<and> PromptTokens (resp_Usage resp) = an_input_tokens r
               \<and> CompletionTokens (resp_Usage resp) = an_output_tokens r
               \<and> TotalTokens (resp_Usage resp) = an_input_tokens r + an_output_tokens r
               \<and> (- (2 ^ 63) \<le> sint (an_input_tokens r) + sint (an_output_tokens r)
                    \<and> sint (an_input_tokens r) + sint (an_output_tokens r) < 2 ^ 63
                  \<longrightarrow> sint (TotalTokens (resp_Usage resp))
                        = sint (an_input_tokens r) + sint (an_output_tokens r))
               \<and> ID resp = an_id r \<and> resp_Model resp = an_model r
               \<and> resp_Provider resp = Name provider"
    if "Type provider = ProviderAnthropic" and "Unmarshal_anthropic lib body = Inr r" for r
    using that ne by (auto simp: ParseProviderResponse_def sint_add_no_overflow)
  from A B C D show ?thesis by blast
qed

text \<open>The theorem at an OpenAI and at an Anthropic provider, with the injected text \<open>hello\<close>
  and the injected counts 3 and 4.\<close>

theorem translate_then_parse_witness:
  "ConvertToProviderFormat (Marshal ex_lib) (ex_mem 1) (ex_req [ex_msg ''user'' ''hi''])
     = Return (Inr ''openai model=m'')
   \<and> (\<exists>resp. ParseProviderResponse ex_lib (ex_mem 1) ''hello'' = Inr resp
         \<and> resp_Content resp = ''hello'' \<and> TotalTokens (resp_Usage resp) = 3 + 4)
   \<and> ConvertToProviderFormat (Marshal ex_lib) (ex_mem 2) (ex_req [ex_msg ''user'' ''hi''])
         = Return (Inr ''anthropic model=m system=(none) user=hi'')
   \<and> (\<exists>resp. ParseProviderResponse ex_lib (ex_mem 2) ''hello'' = Inr resp
         \<and> resp_Content resp = ''hello'' \<and> TotalTokens (resp_Usage resp) = 3 + 4)"
proof -
  let ?req = "ex_req [ex_msg ''user'' ''hi'']"
  have t1: "Type (ex_mem 1) = ProviderGroq \<or> Type (ex_mem 1) = ProviderOpenAI"
    and t2: "Type (ex_mem 2) = ProviderAnthropic"
    by (simp_all add: ex_mem_def ex_provider_def ProviderOpenAI_def ProviderAnthropic_def)
  have u1: "Unmarshal_openai ex_lib ''hello''
      = Inr \<lparr>oa_id = ''id-1'', oa_model = ''m'', oa_choices = [''hello'', ''second''],
              oa_usage = ex_usage\<rparr>"
    and u2: "Unmarshal_anthropic ex_lib ''hello''
      = Inr \<lparr>an_id = ''id-2'', an_model = ''m'', an_content = [''hello'', ''second''],
              an_input_tokens = 3, an_output_tokens = 4\<rparr>"
    by (simp_all add: ex_lib_def)
  have tx: "list_all (\<lambda>m. isText (Content m)) (Messages ?req)"
    by (simp add: ex_req_def ex_msg_def isText_def)
  note T1 = translate_then_parse [of "ex_mem 1" ex_lib ?req "''hello''", THEN conjunct1, rule_format, OF t1]
  note T2 = translate_then_parse [of "ex_mem 2" ex_lib ?req "''hello''", THEN conjunct2, rule_format, OF t2]
  have a: "ConvertToProviderFormat (Marshal ex_lib) (ex_mem 1) ?req = Return (Inr ''openai model=m'')"
    using T1 [THEN conjunct1]
    by (simp add: ex_lib_def ex_marshal_def ex_mem_def ex_provider_def)
  from T1 [THEN conjunct2, rule_format, OF u1]
  have b: "\<exists>resp. ParseProviderResponse ex_lib (ex_mem 1) ''hello'' = Inr resp
         \<and> resp_Content resp = ''hello'' \<and> TotalTokens (resp_Usage resp) = 3 + 4"
    by (auto simp: ex_usage_def)
  from T2 [THEN conjunct1, rule_format, OF tx]
  have c: "ConvertToProviderFormat (Marshal ex_lib) (ex_mem 2) ?req
             = Return (Inr ''anthropic model=m system=(none) user=hi'')"
    by (simp add: ex_lib_def ex_marshal_def ex_mem_def ex_provider_def ex_req_def ex_msg_def
        lastSystem_def rolePairs_def textOf_def)
  from T2 [THEN conjunct2, rule_format, OF u2]
  have d: "\<exists>resp. ParseProviderResponse ex_lib (ex_mem 2) ''hello'' = Inr resp
         \<and> resp_Content resp = ''hello'' \<and> TotalTokens (resp_Usage resp) = 3 + 4"
    by auto
  from a b c d show ?thesis by blast
qed

text \<open>
  C8 as stated fails for the chat-completions family: a wire response with the counts 3 and
  4 and the total 99 is parsed to a canonical response with the total 99, not 7.
\<close>

theorem translate_then_parse_counterexample:
  "ParseProviderResponse ex_lib_skew (ex_mem 1) ''hello''
     = Inr \<lparr>ID = ''id-3'', resp_Content = ''hello'', resp_Model = ''m'',
            resp_Usage = \<lparr>PromptTokens = 3, CompletionTokens = 4, TotalTokens = 99\<rparr>,
            resp_Provider = ''b''\<rparr>
   \<and> (99 :: int64) \<noteq> 3 + 4"
  by (simp add: ParseProviderResponse_def ex_lib_skew_def ex_lib_def ex_mem_def ex_provider_def
      ProviderGroq_def ProviderOpenAI_def)


text \<open>
  C10. For every pool state \<open>GetProviders\<close> returns one copy for each registry entry,
  in the registry's order; each copy has \<open>APIKey\<close> equal to \<open>***\<close> and every other
  field as stored; and the state, with every stored provider and its credential, is
  left as it was.
\<close>

theorem GetProviders_masks_APIKey:
  "fst (GetProviders w) = w
   \<and> length (snd (GetProviders w)) = length (providers w)
   \<and> (\<forall>i<length (providers w).
         APIKey (snd (GetProviders w) ! i) = ''***''
         \<and> snd (GetProviders w) ! i = (mem w (providers w ! i))\<lparr>APIKey := ''***''\<rparr>)"
  by (simp add: GetProviders_def)


text \<open>The theorem at a pool of two providers whose credential is \<open>secret\<close>.\<close>

theorem GetProviders_masks_APIKey_witness:
  "length (snd (GetProviders (ex_world [0, 1]))) = 2
   \<and> APIKey (snd (GetProviders (ex_world [0, 1])) ! 0) = ''***''
   \<and> APIKey (snd (GetProviders (ex_world [0, 1])) ! 1) = ''***''
   \<and> Name (snd (GetProviders (ex_world [0, 1])) ! 1) = ''b''
   \<and> APIKey (mem (fst (GetProviders (ex_world [0, 1]))) 1) = ''secret''"
proof -
  let ?w = "ex_world [0, 1]"
  have p: "providers ?w = [0, 1]" and m: "mem ?w = ex_mem" by (simp_all add: ex_world_def)
  have n: "Name (ex_mem 1) = ''b''" "APIKey (ex_mem 1) = ''secret''"
    by (simp_all add: ex_mem_def ex_provider_def)
  note t = GetProviders_masks_APIKey [of ?w, unfolded p m]
  from t have w: "fst (GetProviders ?w) = ?w" by (rule conjunct1)
  from t have l: "length (snd (GetProviders ?w)) = length [0, 1::nat]" by blast
  from t have e: "\<forall>i<length [0, 1::nat]. APIKey (snd (GetProviders ?w) ! i) = ''***''
         \<and> snd (GetProviders ?w) ! i = (ex_mem ([0, 1] ! i))\<lparr>APIKey := ''***''\<rparr>" by blast
  from e [rule_format, of 0] have e0: "APIKey (snd (GetProviders ?w) ! 0) = ''***''" by simp
  from e [rule_format, of 1] have e1: "APIKey (snd (GetProviders ?w) ! 1) = ''***''"
    "Name (snd (GetProviders ?w) ! 1) = ''b''" using n by simp_all
  from l e0 e1 n show ?thesis unfolding w m by simp
qed

end
